theory Spec2Isabelle
  imports Complex_Main
begin

section \<open>Data model (src/App.tsx, lines 13-36)\<close>

text \<open>
  A JavaScript number is an IEEE double. Only its mathematical value matters to the code
  modelled here, so a finite number is its exact rational value and the three non-finite
  values are constructors of their own. JSON text such as \<open>1e999\<close> parses to
  \<open>Infinity\<close>, so a backend response can carry \<open>PosInf\<close>.
\<close>

datatype number = Fin rat | PosInf | NegInf | NaN

text \<open>
  Strings are byte lists; a character outside ASCII is written as its UTF-8 bytes. The
  code never measures a string: it only copies, concatenates and tests for emptiness.
\<close>

record InvoiceItem =
  descricao :: string
  quantidade :: number
  valor_unitario :: number
  valor_total :: number

record Invoice =
  loja :: string
  cnpj :: string
  data_emissao :: string
  total :: number
  itens :: "InvoiceItem list"

text \<open>The result of awaiting a promise: it rejects with a reason or resolves with a value.\<close>

datatype 'a awaited = Rejected string | Resolved 'a

text \<open>
  What \<open>fetch\<close> resolves with. The code reads \<open>res.ok\<close>, \<open>res.text()\<close> and
  \<open>res.json()\<close>. \<open>body\<close> is the outcome of reading the body stream, \<open>parsed\<close> the
  outcome of parsing that body as JSON (the parser is the platform's, so its result is
  data of the response). Line 74 checks nothing about the parsed value and line 76 stores
  it in a cell of type \<open>Invoice | null\<close>: the value is an invoice, or \<open>None\<close> for the
  JSON text \<open>null\<close>.
\<close>

record response =
  status :: nat
  body :: "string awaited"
  parsed :: "Invoice option awaited"

definition ok :: "response \<Rightarrow> bool" where
  "ok res = (200 \<le> status res \<and> status res \<le> 299)"

definition res_text :: "response \<Rightarrow> string awaited" where
  "res_text res = body res"

definition res_json :: "response \<Rightarrow> Invoice option awaited" where
  "res_json res = (case body res of Rejected why \<Rightarrow> Rejected why | Resolved _ \<Rightarrow> parsed res)"

text \<open>The request issued at lines 61-65; \<open>req_url\<close> is the \<open>url\<close> property of the JSON body.\<close>

record request =
  req_endpoint :: string
  req_method :: string
  req_content_type :: string
  req_url :: string

datatype log_arg = LText string | LInvoice "Invoice option"

datatype log_entry = ConsoleLog string log_arg | ConsoleError string log_arg

text \<open>
  The six \<open>useState\<close> cells of the component (lines 30-36), together with what the
  component does to the outside: the console, the requests it has issued, and the number
  of \<open>fetchNFCe\<close> invocations suspended at an \<open>await\<close>. \<open>mounted\<close> says whether
  the \<open>CameraView\<close> of the last committed render is on screen, with
  \<open>handleBarcodeScanned\<close> attached to it: a setter only schedules a render, so the
  scanner outlives \<open>setIsScanning(false)\<close> until the next render is committed.
\<close>

record app =
  hasPermission :: "bool option"
  isScanning :: bool
  rawUrl :: "string option"
  invoice :: "Invoice option"
  loading :: bool
  error :: "string option"
  console :: "log_entry list"
  sent :: "request list"
  inflight :: nat
  mounted :: bool

definition initial :: app where
  "initial = \<lparr>hasPermission = None, isScanning = False, rawUrl = None, invoice = None,
     loading = False, error = None, console = [], sent = [], inflight = 0,
     mounted = False\<rparr>"

definition BACKEND_URL :: string where
  "BACKEND_URL = ''https://finance-manager-python-server.vercel.app/consulta-nfce''"

definition processing_message :: string where
  "processing_message =
     ''N'' @ [CHR 0xC3, CHR 0xA3] @ ''o foi poss'' @ [CHR 0xC3, CHR 0xAD]
       @ ''vel processar a nota. Tente novamente.''"

definition connection_message :: string where
  "connection_message = ''Erro de conex'' @ [CHR 0xC3, CHR 0xA3] @ ''o com o servidor.''"

section \<open>Permission gate (lines 41-46)\<close>

definition permission_resolved :: "string \<Rightarrow> app \<Rightarrow> app" where
  "permission_resolved st s = s\<lparr>hasPermission := Some (st = ''granted'')\<rparr>"

section \<open>Invoice fetch (lines 55-83)\<close>

text \<open>
  \<open>fetchNFCe\<close> is an async function. A call runs lines 57-65 at once, up to the first
  \<open>await\<close>: the three setters, then the request. It resumes when the request settles.
  Between the two awaits of one invocation (the request, then the body) the invocation
  neither reads nor writes the state, so one resumption stands for both.
\<close>

definition try_prologue :: "app \<Rightarrow> app" where
  "try_prologue s = s\<lparr>loading := True, error := None, invoice := None\<rparr>"

definition issue_request :: "string \<Rightarrow> app \<Rightarrow> app" where
  "issue_request url s =
     s\<lparr>sent := sent s @ [\<lparr>req_endpoint = BACKEND_URL, req_method = ''POST'',
             req_content_type = ''application/json'', req_url = url\<rparr>],
       inflight := Suc (inflight s)\<rparr>"

definition fetchNFCe_call :: "string \<Rightarrow> app \<Rightarrow> app" where
  "fetchNFCe_call url s = issue_request url (try_prologue s)"

datatype completion = Normal | Returned | Thrown string

definition say :: "log_entry \<Rightarrow> app \<Rightarrow> app" where
  "say e s = s\<lparr>console := console s @ [e]\<rparr>"

fun try_rest :: "response awaited \<Rightarrow> app \<Rightarrow> completion \<times> app" where
  "try_rest (Rejected why) s = (Thrown why, s)"
| "try_rest (Resolved res) s =
     (if \<not> ok res then
        (case res_text res of
           Rejected why \<Rightarrow> (Thrown why, s)
         | Resolved txt \<Rightarrow>
             (Returned,
              (say (ConsoleError ''Erro backend:'' (LText txt)) s)
                \<lparr>error := Some processing_message\<rparr>))
      else
        (case res_json res of
           Rejected why \<Rightarrow> (Thrown why, s)
         | Resolved data \<Rightarrow>
             (Normal,
              (say (ConsoleLog ''Invoice:'' (LInvoice data)) s)\<lparr>invoice := data\<rparr>)))"

definition catch_block :: "string \<Rightarrow> app \<Rightarrow> app" where
  "catch_block why s =
     (say (ConsoleError ''Erro fetch:'' (LText why)) s)\<lparr>error := Some connection_message\<rparr>"

definition finally_block :: "app \<Rightarrow> app" where
  "finally_block s = s\<lparr>loading := False\<rparr>"

definition fetchNFCe_resume :: "response awaited \<Rightarrow> app \<Rightarrow> app" where
  "fetchNFCe_resume r s =
     (case try_rest r s of
        (Thrown why, s') \<Rightarrow> finally_block (catch_block why s')
      | (_, s') \<Rightarrow> finally_block s')"

text \<open>The request settles: one suspended invocation resumes.\<close>

definition fetch_settled :: "response awaited \<Rightarrow> app \<Rightarrow> app" where
  "fetch_settled r s = fetchNFCe_resume r (s\<lparr>inflight := inflight s - 1\<rparr>)"

text \<open>One invocation run with nothing else happening between its call and its end.\<close>

definition fetchNFCe :: "string \<Rightarrow> response awaited \<Rightarrow> app \<Rightarrow> app" where
  "fetchNFCe url r s = fetch_settled r (fetchNFCe_call url s)"

section \<open>Scan session (lines 48-53 and 111-117)\<close>

definition handleBarcodeScanned :: "string \<Rightarrow> app \<Rightarrow> app" where
  "handleBarcodeScanned data s =
     fetchNFCe_call data
       (say (ConsoleLog ''QR LIDO:'' (LText data))
          (s\<lparr>isScanning := False, rawUrl := Some data\<rparr>))"

definition press_cancel :: "app \<Rightarrow> app" where
  "press_cancel s = s\<lparr>isScanning := False\<rparr>"

definition press_scan :: "app \<Rightarrow> app" where
  "press_scan s = s\<lparr>isScanning := True\<rparr>"

section \<open>Number formatting used by the result view\<close>

definition digit_char :: "nat \<Rightarrow> char" where
  "digit_char d = ''0123456789'' ! d"

function decimal_digits :: "nat \<Rightarrow> string" where
  "decimal_digits n =
     (if n < 10 then [digit_char n] else decimal_digits (n div 10) @ [digit_char (n mod 10)])"
  by pat_completeness auto
termination
  by (relation "measure id") auto

declare decimal_digits.simps [simp del]

text \<open>
  \<open>Number::toString\<close> of ECMAScript. On a finite value the engine prints the shortest
  digits that read back as the same double, which depends on the neighbouring doubles and
  is left open by the standard in the last digit; it is the parameter \<open>num2str\<close>.
\<close>

definition Number_toString :: "(rat \<Rightarrow> string) \<Rightarrow> number \<Rightarrow> string" where
  "Number_toString num2str v =
     (case v of
        Fin x \<Rightarrow> num2str x
      | PosInf \<Rightarrow> ''Infinity''
      | NegInf \<Rightarrow> ''-Infinity''
      | NaN \<Rightarrow> ''NaN'')"

text \<open>
  \<open>Number.prototype.toFixed\<close> at the argument 2, the only one the code passes
  (lines 161, 174, 178), step by step as ECMAScript has it: a non-finite value is printed
  by \<open>Number::toString\<close>; the sign is split off; a magnitude of at least \<open>10^21\<close> is
  printed by \<open>Number::toString\<close>; otherwise \<open>n\<close> is the integer nearest to
  \<open>100 * x\<close> (the larger one on a tie), its digits are padded with zeros to three
  characters at least, and the point goes before the last two.
\<close>

definition toFixed2 :: "(rat \<Rightarrow> string) \<Rightarrow> number \<Rightarrow> string" where
  "toFixed2 num2str v =
     (case v of
        Fin x \<Rightarrow>
          (let s = (if x < 0 then ''-'' else []);
               x' = (if x < 0 then - x else x)
           in if 10 ^ 21 \<le> x' then s @ num2str x'
              else
                (let n = nat \<lfloor>x' * 100 + 1 / 2\<rfloor>;
                     m = decimal_digits n;
                     m' = (if length m \<le> 2 then replicate (3 - length m) (CHR ''0'') @ m
                           else m);
                     k = length m'
                 in s @ take (k - 2) m' @ ''.'' @ drop (k - 2) m'))
      | _ \<Rightarrow> Number_toString num2str v)"

section \<open>Result renderer (lines 85-205)\<close>

text \<open>JavaScript truthiness of a \<open>string | null\<close>: null and the empty string are falsy.\<close>

definition truthy :: "string option \<Rightarrow> bool" where
  "truthy v = (case v of None \<Rightarrow> False | Some t \<Rightarrow> t \<noteq> [])"

record item_row =
  row_description :: string
  row_subtext :: string
  row_total :: string

record invoice_card =
  card_store :: string
  card_cnpj :: string
  card_emissao :: "string option"
  card_total :: string
  card_items :: "item_row list"
  card_raw_url :: "string option"

text \<open>
  The main screen (lines 103-205): the button, the scanner, and the four conditional
  blocks of lines 132, 139, 146 and 195, each rendered or not on its own condition.
\<close>

record main_screen =
  button :: string
  scanner :: bool
  loader :: bool
  error_box :: "string option"
  result_box :: "invoice_card option"
  empty_box :: bool

datatype view = PermissionPending string | PermissionDenied string | MainScreen main_screen

definition render_item :: "(rat \<Rightarrow> string) \<Rightarrow> InvoiceItem \<Rightarrow> item_row" where
  "render_item num2str item =
     \<lparr>row_description = descricao item,
      row_subtext = ''Qtd: '' @ Number_toString num2str (quantidade item) @ '' ''
        @ [CHR 0xE2, CHR 0x80, CHR 0xA2] @ '' Vl. unit: R$'' @ '' ''
        @ toFixed2 num2str (valor_unitario item),
      row_total = ''R$ '' @ toFixed2 num2str (valor_total item)\<rparr>"

definition render_invoice ::
  "(rat \<Rightarrow> string) \<Rightarrow> Invoice \<Rightarrow> string option \<Rightarrow> invoice_card" where
  "render_invoice num2str nf raw =
     \<lparr>card_store = loja nf,
      card_cnpj = ''CNPJ: '' @ cnpj nf,
      card_emissao =
        (if data_emissao nf \<noteq> []
         then Some (''Emiss'' @ [CHR 0xC3, CHR 0xA3] @ ''o: '' @ data_emissao nf) else None),
      card_total = ''R$ '' @ toFixed2 num2str (total nf),
      card_items = map (render_item num2str) (itens nf),
      card_raw_url = (if truthy raw then raw else None)\<rparr>"

definition App :: "(rat \<Rightarrow> string) \<Rightarrow> app \<Rightarrow> view" where
  "App num2str s =
     (if hasPermission s = None then
        PermissionPending
          (''Pedindo permiss'' @ [CHR 0xC3, CHR 0xA3] @ ''o da c'' @ [CHR 0xC3, CHR 0xA2]
             @ ''mera...'')
      else if hasPermission s = Some False then
        PermissionDenied
          (''Sem acesso '' @ [CHR 0xC3, CHR 0xA0] @ '' c'' @ [CHR 0xC3, CHR 0xA2]
             @ ''mera. Habilite nas configura'' @ [CHR 0xC3, CHR 0xA7, CHR 0xC3, CHR 0xB5]
             @ ''es.'')
      else
        MainScreen
          \<lparr>button = (if isScanning s then ''Cancelar leitura'' else ''Escanear Nota''),
           scanner = isScanning s,
           loader = loading s,
           error_box = (if truthy (error s) \<and> \<not> loading s then error s else None),
           result_box =
             (case invoice s of
                None \<Rightarrow> None
              | Some nf \<Rightarrow>
                  if \<not> loading s \<and> \<not> truthy (error s)
                  then Some (render_invoice num2str nf (rawUrl s)) else None),
           empty_box =
             (\<not> loading s \<and> \<not> truthy (error s) \<and> invoice s = None \<and> \<not> isScanning s)\<rparr>)"

text \<open>Which of the four status contents a rendered main screen holds, in document order.\<close>

datatype status_content = LoadingIndicator | ErrorBanner | InvoiceCard | EmptyPlaceholder

definition status_contents :: "main_screen \<Rightarrow> status_content list" where
  "status_contents m =
     (if loader m then [LoadingIndicator] else [])
     @ (if error_box m \<noteq> None then [ErrorBanner] else [])
     @ (if result_box m \<noteq> None then [InvoiceCard] else [])
     @ (if empty_box m then [EmptyPlaceholder] else [])"

section \<open>The screen as an event-driven system\<close>

text \<open>
  React commits a render of the current state: the scanner is on screen exactly when the
  main screen is rendered with \<open>isScanning\<close> (lines 85-129).
\<close>

definition rerender :: "app \<Rightarrow> app" where
  "rerender s = s\<lparr>mounted := (hasPermission s = Some True \<and> isScanning s)\<rparr>"

text \<open>
  Everything that can happen to a mounted screen: the permission request of the mount
  effect resolves (once: the effect has no dependencies), the user presses one of the two
  buttons, the scanner reports a QR code, a request settles, a render is committed.
  A decode can happen whenever the scanner is on screen, which is until the render after
  \<open>setIsScanning(false)\<close>: the handler itself tests nothing (lines 48-53). A settlement
  can happen when a request is out. A button is taken as pressed when the current state
  renders it: a press on a button of a render that is out of date writes the value
  \<open>isScanning\<close> already has, and adds no state.
\<close>

datatype event =
    PermissionResolved string
  | PressScan
  | PressCancel
  | BarcodeScanned string
  | FetchSettled "response awaited"
  | Rerender

fun enabled :: "app \<Rightarrow> event \<Rightarrow> bool" where
  "enabled s (PermissionResolved st) = (hasPermission s = None)"
| "enabled s PressScan = (hasPermission s = Some True \<and> \<not> isScanning s)"
| "enabled s PressCancel = (hasPermission s = Some True \<and> isScanning s)"
| "enabled s (BarcodeScanned d) = mounted s"
| "enabled s (FetchSettled r) = (0 < inflight s)"
| "enabled s Rerender = True"

fun handle :: "event \<Rightarrow> app \<Rightarrow> app" where
  "handle (PermissionResolved st) s = permission_resolved st s"
| "handle PressScan s = press_scan s"
| "handle PressCancel s = press_cancel s"
| "handle (BarcodeScanned d) s = handleBarcodeScanned d s"
| "handle (FetchSettled r) s = fetch_settled r s"
| "handle Rerender s = rerender s"

fun exec :: "event list \<Rightarrow> app \<Rightarrow> app option" where
  "exec [] s = Some s"
| "exec (e # es) s = (if enabled s e then exec es (handle e s) else None)"

section \<open>Notions used to state the properties\<close>

text \<open>A settlement is the only event that writes \<open>invoice\<close> or \<open>error\<close> to a value.\<close>

fun is_settlement :: "event \<Rightarrow> bool" where
  "is_settlement (FetchSettled r) = True"
| "is_settlement e = False"

text \<open>
  A settlement is a success when it reaches line 76: the request resolved with \<open>res.ok\<close>
  and \<open>res.json()\<close> resolved. Every other settlement is a failure. \<open>delivered\<close> is
  the value line 76 stores, and none for a failure.
\<close>

definition succeeded :: "response awaited \<Rightarrow> bool" where
  "succeeded r =
     (case r of
        Rejected why \<Rightarrow> False
      | Resolved res \<Rightarrow>
          ok res \<and> (case res_json res of Rejected why \<Rightarrow> False | Resolved d \<Rightarrow> True))"

definition delivered :: "response awaited \<Rightarrow> Invoice option" where
  "delivered r =
     (case r of
        Rejected why \<Rightarrow> None
      | Resolved res \<Rightarrow>
          if ok res then (case res_json res of Rejected why \<Rightarrow> None | Resolved d \<Rightarrow> d)
          else None)"

text \<open>The texts of the decode events of a run, in order.\<close>

fun decoded :: "event list \<Rightarrow> string list" where
  "decoded [] = []"
| "decoded (BarcodeScanned d # es) = d # decoded es"
| "decoded (e # es) = decoded es"

definition both_populated :: "app \<Rightarrow> bool" where
  "both_populated s = (invoice s \<noteq> None \<and> error s \<noteq> None)"

text \<open>
  The HTTP exchange completed: the request resolved and the body of the response arrived.
  A request that rejects, or a body that cannot be read, is a transport failure.
\<close>

definition completed :: "response awaited \<Rightarrow> bool" where
  "completed r =
     (case r of
        Rejected why \<Rightarrow> False
      | Resolved res \<Rightarrow> (case body res of Rejected why \<Rightarrow> False | Resolved txt \<Rightarrow> True))"

text \<open>A completed exchange with a success status whose body is not JSON.\<close>

definition unparsable :: "response awaited \<Rightarrow> bool" where
  "unparsable r =
     (case r of
        Rejected why \<Rightarrow> False
      | Resolved res \<Rightarrow>
          ok res \<and> (case body res of Rejected why \<Rightarrow> False | Resolved txt \<Rightarrow>
                     (case parsed res of Rejected why \<Rightarrow> True | Resolved d \<Rightarrow> False)))"

text \<open>The only values the code ever stores in \<open>error\<close> (lines 36, 58, 70, 79).\<close>

definition error_wf :: "app \<Rightarrow> bool" where
  "error_wf s =
     (error s = None \<or> error s = Some processing_message \<or> error s = Some connection_message)"

definition the_request :: "string \<Rightarrow> request" where
  "the_request url = \<lparr>req_endpoint = BACKEND_URL, req_method = ''POST'',
             req_content_type = ''application/json'', req_url = url\<rparr>"

text \<open>The view mode of a rendered view: which screen, and which status contents on it.\<close>

datatype view_mode = PendingMode | DeniedMode | MainMode "status_content list"

fun mode_of :: "view \<Rightarrow> view_mode" where
  "mode_of (PermissionPending t) = PendingMode"
| "mode_of (PermissionDenied t) = DeniedMode"
| "mode_of (MainScreen m) = MainMode (status_contents m)"

text \<open>
  The renderer as the specification words it (section 4.4): \<open>cameraAuthorized\<close> unknown,
  then denied, then the main screen with the loading indicator if \<open>fetchInFlight\<close>, else
  the error banner if \<open>fetchError\<close> is not none, else the invoice card if \<open>invoice\<close> is
  not none, else the placeholder if not scanning.
\<close>

definition spec_view_mode :: "app \<Rightarrow> view_mode" where
  "spec_view_mode s =
     (if hasPermission s = None then PendingMode
      else if hasPermission s = Some False then DeniedMode
      else MainMode
        (if loading s then [LoadingIndicator]
         else if error s \<noteq> None then [ErrorBanner]
         else if invoice s \<noteq> None then [InvoiceCard]
         else if \<not> isScanning s then [EmptyPlaceholder]
         else []))"

text \<open>
  The number of hundredths nearest to the magnitude of \<open>x\<close>, the larger one on a tie:
  the integer \<open>n\<close> of \<open>toFixed(2)\<close>.
\<close>

definition cents :: "rat \<Rightarrow> nat" where
  "cents x = nat \<lfloor>\<bar>x\<bar> * 100 + 1 / 2\<rfloor>"

text \<open>
  A text with exactly two decimal digits: an optional minus sign, one digit or more, a
  point, two digits.
\<close>

definition is_digit :: "char \<Rightarrow> bool" where
  "is_digit c = (c \<in> set ''0123456789'')"

definition two_decimal_digits :: "string \<Rightarrow> bool" where
  "two_decimal_digits t =
     (case rev t of
        d2 # d1 # p # ip \<Rightarrow>
          is_digit d1 \<and> is_digit d2 \<and> p = CHR ''.''
          \<and> (let w = rev ip; u = (if take 1 w = ''-'' then drop 1 w else w)
             in u \<noteq> [] \<and> list_all is_digit u)
      | _ \<Rightarrow> False)"

text \<open>The last steps of \<open>toFixed(2)\<close>: pad to three characters, point before the last two.\<close>

definition place_point :: "string \<Rightarrow> string" where
  "place_point m =
     (let m' = (if length m \<le> 2 then replicate (3 - length m) (CHR ''0'') @ m else m);
          k = length m'
      in take (k - 2) m' @ ''.'' @ drop (k - 2) m')"

section \<open>Concrete inputs\<close>

text \<open>
  A number printer to run the renderer with: it prints the integer part in decimal, as the
  engine does for the integers up to \<open>2^53\<close>.
\<close>

definition int_num2str :: "rat \<Rightarrow> string" where
  "int_num2str x = (if x < 0 then ''-'' else []) @ decimal_digits (nat \<lfloor>\<bar>x\<bar>\<rfloor>)"

definition sample_invoice :: Invoice where
  "sample_invoice =
     \<lparr>loja = ''Mercado X'', cnpj = ''00.000.000/0001-00'', data_emissao = ''2024-01-01'',
      total = Fin (199 / 10),
      itens = [\<lparr>descricao = ''Arroz'', quantidade = Fin 1, valor_unitario = Fin (199 / 10),
                valor_total = Fin (199 / 10)\<rparr>]\<rparr>"

definition http_200 :: "response awaited" where
  "http_200 = Resolved \<lparr>status = 200, body = Resolved ''{...}'',
     parsed = Resolved (Some sample_invoice)\<rparr>"

definition http_200_null :: "response awaited" where
  "http_200_null = Resolved \<lparr>status = 200, body = Resolved ''null'', parsed = Resolved None\<rparr>"

definition http_500 :: "response awaited" where
  "http_500 = Resolved \<lparr>status = 500, body = Resolved ''Internal Server Error'',
     parsed = Rejected ''SyntaxError''\<rparr>"

definition http_500_body_lost :: "response awaited" where
  "http_500_body_lost = Resolved \<lparr>status = 500, body = Rejected ''Network request failed'',
     parsed = Rejected ''Network request failed''\<rparr>"

definition http_200_not_json :: "response awaited" where
  "http_200_not_json = Resolved \<lparr>status = 200, body = Resolved ''<html>'',
     parsed = Rejected ''SyntaxError''\<rparr>"

definition unreachable :: "response awaited" where
  "unreachable = Rejected ''Network request failed''"

text \<open>
  Two scans in a row, the second before the first request has settled; then the first
  request fails and the second succeeds.
\<close>

definition overlapping_fetches :: "event list" where
  "overlapping_fetches =
     [PermissionResolved ''granted'',
      PressScan, Rerender, BarcodeScanned ''https://example/nfce?x=1'',
      PressScan, Rerender, BarcodeScanned ''https://example/nfce?x=2'',
      FetchSettled unreachable, FetchSettled http_200]"

text \<open>The same two scans; the first request succeeds, then the second answers 500.\<close>

definition overlap_then_500 :: "event list" where
  "overlap_then_500 =
     [PermissionResolved ''granted'',
      PressScan, Rerender, BarcodeScanned ''https://example/nfce?x=1'',
      PressScan, Rerender, BarcodeScanned ''https://example/nfce?x=2'',
      FetchSettled http_200, FetchSettled http_500]"

text \<open>
  One scan session in which the scanner reports the code twice before the render that
  takes it off the screen.
\<close>

definition double_decode :: "event list" where
  "double_decode =
     [PermissionResolved ''granted'', PressScan, Rerender,
      BarcodeScanned ''https://example/nfce?x=1'',
      BarcodeScanned ''https://example/nfce?x=1'', Rerender]"

text \<open>A state with every cell set at once: loading, with an error and an invoice.\<close>

definition busy_state :: app where
  "busy_state =
     \<lparr>hasPermission = Some True, isScanning = True,
      rawUrl = Some ''https://example/nfce?x=1'', invoice = Some sample_invoice,
      loading = True, error = Some connection_message, console = [], sent = [],
      inflight = 1, mounted = True\<rparr>"

section \<open>Properties\<close>

text \<open>
  The buttons are those the view of the current state offers, and a committed render has
  the scanner on screen exactly when that view holds it. The view reads the six state
  cells only.
\<close>

lemma events_offered_by_view:
  "enabled s PressScan \<longleftrightarrow> (\<exists>m. App n s = MainScreen m \<and> button m = ''Escanear Nota'')"
  "enabled s PressCancel \<longleftrightarrow> (\<exists>m. App n s = MainScreen m \<and> button m = ''Cancelar leitura'')"
  "mounted (rerender s) \<longleftrightarrow> (\<exists>m. App n s = MainScreen m \<and> scanner m)"
  by (cases "hasPermission s"; simp add: App_def rerender_def)+

lemma view_ignores_effects:
  "App n (s\<lparr>console := c, sent := q, inflight := k, mounted := b\<rparr>) = App n s"
  by (cases "invoice s") (simp_all add: App_def)

lemma messages_distinct: "processing_message \<noteq> connection_message"
  by (simp add: processing_message_def connection_message_def)

lemma messages_nonempty: "processing_message \<noteq> []" "connection_message \<noteq> []"
  by (simp_all add: processing_message_def connection_message_def)

lemma loading_fetchNFCe_resume: "\<not> loading (fetchNFCe_resume r s)"
  by (cases r)
     (auto simp: fetchNFCe_resume_def finally_block_def catch_block_def say_def
           split: awaited.splits)

lemma error_fetchNFCe_resume:
  "error (fetchNFCe_resume r s) =
     (if succeeded r then error s
      else if completed r \<and> \<not> unparsable r then Some processing_message
      else Some connection_message)"
  by (cases r)
     (auto simp: fetchNFCe_resume_def finally_block_def catch_block_def say_def
                 succeeded_def completed_def unparsable_def res_json_def res_text_def
           split: awaited.splits)

lemma invoice_fetchNFCe_resume:
  "invoice (fetchNFCe_resume r s) =
     (if succeeded r then delivered r else invoice s)"
  by (cases r)
     (auto simp: fetchNFCe_resume_def finally_block_def catch_block_def say_def
                 succeeded_def delivered_def res_json_def res_text_def
           split: awaited.splits)

lemma frame_fetchNFCe_resume:
  "hasPermission (fetchNFCe_resume r s) = hasPermission s"
  "isScanning (fetchNFCe_resume r s) = isScanning s"
  "rawUrl (fetchNFCe_resume r s) = rawUrl s"
  "sent (fetchNFCe_resume r s) = sent s"
  "inflight (fetchNFCe_resume r s) = inflight s"
  "mounted (fetchNFCe_resume r s) = mounted s"
  by (cases r;
      auto simp: fetchNFCe_resume_def finally_block_def catch_block_def say_def
           split: awaited.splits)+

text \<open>
  Claim C3. Every \<open>fetchNFCe\<close> invocation first sets \<open>loading\<close> and clears \<open>error\<close>
  and \<open>invoice\<close>, and only then issues its request, which leaves the three as they are;
  and whatever the outcome (success, a non-success status, a rejected request or body),
  and whatever the state it resumes in, it ends with \<open>loading\<close> false.
\<close>
theorem fetch_sets_and_clears_loading:
  "loading (try_prologue s) \<and> error (try_prologue s) = None \<and> invoice (try_prologue s) = None
   \<and> fetchNFCe_call url s = issue_request url (try_prologue s)
   \<and> sent (try_prologue s) = sent s
   \<and> sent (fetchNFCe_call url s) = sent s @ [\<lparr>req_endpoint = BACKEND_URL, req_method = ''POST'',
             req_content_type = ''application/json'', req_url = url\<rparr>]
   \<and> loading (fetchNFCe_call url s) \<and> error (fetchNFCe_call url s) = None
   \<and> invoice (fetchNFCe_call url s) = None
   \<and> \<not> loading (fetch_settled r s') \<and> \<not> loading (fetchNFCe url r s)"
  by (simp add: try_prologue_def fetchNFCe_call_def issue_request_def fetch_settled_def
        fetchNFCe_def loading_fetchNFCe_resume)

theorem fetch_sets_and_clears_loading_witness:
  "loading (fetchNFCe_call ''https://example/nfce?x=1'' initial)
   \<and> error (fetchNFCe_call ''https://example/nfce?x=1'' initial) = None
   \<and> invoice (fetchNFCe_call ''https://example/nfce?x=1'' initial) = None
   \<and> \<not> loading (fetchNFCe ''https://example/nfce?x=1'' http_500 initial)"
  using fetch_sets_and_clears_loading
    [of initial "''https://example/nfce?x=1''" http_500 initial]
  by (elim conjE) (intro conjI; assumption)

lemma handle_cleared:
  "\<not> is_settlement e \<Longrightarrow> invoice s = None \<and> error s = None
     \<Longrightarrow> invoice (handle e s) = None \<and> error (handle e s) = None"
  by (cases e)
     (simp_all add: permission_resolved_def press_scan_def press_cancel_def rerender_def
        handleBarcodeScanned_def fetchNFCe_call_def issue_request_def try_prologue_def say_def)

lemma exec_cleared:
  "exec es s = Some s' \<Longrightarrow> \<forall>e\<in>set es. \<not> is_settlement e
     \<Longrightarrow> invoice s = None \<and> error s = None \<Longrightarrow> invoice s' = None \<and> error s' = None"
proof (induction es arbitrary: s)
  case Nil
  then show ?case by simp
next
  case (Cons e es)
  from Cons.prems(1) have en: "enabled s e" and rest: "exec es (handle e s) = Some s'"
    by (auto split: if_splits)
  from Cons.prems(2) have ne: "\<not> is_settlement e" and nes: "\<forall>e\<in>set es. \<not> is_settlement e"
    by auto
  from handle_cleared[OF ne Cons.prems(3)] Cons.IH[OF rest nes] show ?case by blast
qed

text \<open>
  Claim C2, amended. For every \<open>fetchNFCe\<close> call with no other settlement between its
  start and its own settlement (anything else may happen in between: button presses, a
  render, a further scan), the two fields are never both populated: a failure leaves an
  error and no invoice; a success leaves no error, and in \<open>invoice\<close> the value the body
  parsed to, which is an invoice, or none when the body is the JSON text \<open>null\<close>.
\<close>
theorem isolated_fetch_invoice_xor_error:
  assumes "exec es (fetchNFCe_call url s) = Some s1"
    and "\<forall>e\<in>set es. \<not> is_settlement e"
  shows "invoice (fetch_settled r s1) = delivered r
    \<and> (succeeded r \<longrightarrow> error (fetch_settled r s1) = None)
    \<and> (\<not> succeeded r \<longrightarrow> error (fetch_settled r s1) \<noteq> None
          \<and> invoice (fetch_settled r s1) = None)
    \<and> \<not> both_populated (fetch_settled r s1)"
proof -
  have "invoice (fetchNFCe_call url s) = None \<and> error (fetchNFCe_call url s) = None"
    by (simp add: fetchNFCe_call_def issue_request_def try_prologue_def)
  with exec_cleared[OF assms] have c: "invoice s1 = None" "error s1 = None" by auto
  have d: "\<not> succeeded r \<longrightarrow> delivered r = None"
    by (auto simp: succeeded_def delivered_def split: awaited.splits)
  from c d show ?thesis
    by (auto simp: fetch_settled_def invoice_fetchNFCe_resume error_fetchNFCe_resume
          both_populated_def)
qed

theorem isolated_fetch_invoice_xor_error_witness:
  "exec [PressScan, Rerender]
      (fetchNFCe_call ''u'' (permission_resolved ''granted'' initial)) \<noteq> None
   \<and> invoice (fetch_settled http_200
        (the (exec [PressScan, Rerender]
           (fetchNFCe_call ''u'' (permission_resolved ''granted'' initial)))))
      = Some sample_invoice
   \<and> error (fetch_settled http_200
        (the (exec [PressScan, Rerender]
           (fetchNFCe_call ''u'' (permission_resolved ''granted'' initial)))))
      = None"
proof -
  let ?s0 = "permission_resolved ''granted'' initial"
  have e: "exec [PressScan, Rerender] (fetchNFCe_call ''u'' ?s0)
      = Some (rerender (press_scan (fetchNFCe_call ''u'' ?s0)))"
    by (simp add: fetchNFCe_call_def issue_request_def try_prologue_def
          permission_resolved_def initial_def)
  have n: "\<forall>e\<in>set [PressScan, Rerender]. \<not> is_settlement e" by simp
  have o: "delivered http_200 = Some sample_invoice" "succeeded http_200"
    by (simp_all add: delivered_def succeeded_def http_200_def ok_def res_json_def)
  from isolated_fetch_invoice_xor_error[OF e n, of http_200] o e show ?thesis by simp
qed

text \<open>
  Claim C2 as stated fails in two ways. When two fetches overlap, the first request fails
  and sets the error, the second succeeds and sets the invoice, and no one clears the
  error: both are populated. And a single fetch that succeeds on the body \<open>null\<close> stores
  null at line 76 and ends with neither populated.
\<close>
theorem overlapping_fetches_populate_both:
  "exec overlapping_fetches initial \<noteq> None
   \<and> both_populated (the (exec overlapping_fetches initial))
   \<and> invoice (the (exec overlapping_fetches initial)) = Some sample_invoice
   \<and> error (the (exec overlapping_fetches initial)) = Some connection_message
   \<and> succeeded http_200_null
   \<and> invoice (fetchNFCe ''https://example/nfce?x=1'' http_200_null initial) = None
   \<and> error (fetchNFCe ''https://example/nfce?x=1'' http_200_null initial) = None"
  by (simp add: overlapping_fetches_def initial_def permission_resolved_def press_scan_def
        rerender_def handleBarcodeScanned_def fetchNFCe_call_def issue_request_def
        try_prologue_def say_def fetch_settled_def fetchNFCe_resume_def catch_block_def
        finally_block_def unreachable_def http_200_def http_200_null_def ok_def res_json_def
        both_populated_def succeeded_def fetchNFCe_def)

text \<open>
  Claim C6, amended. When the request resolves with a non-success status, the fetch leaves
  \<open>invoice\<close> as it was, which is none when no other fetch settled since its own start.
  If the body of the response can be read, \<open>error\<close> becomes the processing-failure
  message and the body goes to the console and nowhere else (with another body the
  resulting state differs in the console only). If reading the body fails, the catch block
  runs and \<open>error\<close> becomes the connection-failure message.
\<close>
theorem http_error_message_by_body:
  assumes "\<not> ok res"
  shows "invoice (fetch_settled (Resolved res) s) = invoice s
    \<and> invoice (fetchNFCe url (Resolved res) s) = None
    \<and> (exec es (fetchNFCe_call url s0) = Some s1 \<and> (\<forall>e\<in>set es. \<not> is_settlement e)
          \<longrightarrow> invoice (fetch_settled (Resolved res) s1) = None)
    \<and> (body res = Resolved bt \<longrightarrow>
          error (fetch_settled (Resolved res) s) = Some processing_message
          \<and> console (fetch_settled (Resolved res) s)
              = console s @ [ConsoleError ''Erro backend:'' (LText bt)]
          \<and> (fetch_settled (Resolved res) s)\<lparr>console := c\<rparr>
              = (fetch_settled (Resolved (res\<lparr>body := Resolved bt'\<rparr>)) s)\<lparr>console := c\<rparr>)
    \<and> (body res = Rejected why \<longrightarrow>
          error (fetch_settled (Resolved res) s) = Some connection_message
          \<and> console (fetch_settled (Resolved res) s)
              = console s @ [ConsoleError ''Erro fetch:'' (LText why)])"
proof -
  have a: "invoice (fetch_settled (Resolved res) s) = invoice s" for s
    using assms
    by (simp add: fetch_settled_def invoice_fetchNFCe_resume succeeded_def)
  have b: "invoice (fetchNFCe url (Resolved res) s) = None"
    by (simp add: fetchNFCe_def a fetchNFCe_call_def issue_request_def try_prologue_def)
  have c: "exec es (fetchNFCe_call url s0) = Some s1 \<and> (\<forall>e\<in>set es. \<not> is_settlement e)
          \<longrightarrow> invoice (fetch_settled (Resolved res) s1) = None"
  proof (intro impI, elim conjE)
    assume e: "exec es (fetchNFCe_call url s0) = Some s1"
      and n: "\<forall>e\<in>set es. \<not> is_settlement e"
    have "invoice (fetchNFCe_call url s0) = None \<and> error (fetchNFCe_call url s0) = None"
      by (simp add: fetchNFCe_call_def issue_request_def try_prologue_def)
    from exec_cleared[OF e n this] show "invoice (fetch_settled (Resolved res) s1) = None"
      by (simp add: a)
  qed
  have d: "body res = Resolved bt \<longrightarrow>
          error (fetch_settled (Resolved res) s) = Some processing_message
          \<and> console (fetch_settled (Resolved res) s)
              = console s @ [ConsoleError ''Erro backend:'' (LText bt)]
          \<and> (fetch_settled (Resolved res) s)\<lparr>console := c\<rparr>
              = (fetch_settled (Resolved (res\<lparr>body := Resolved bt'\<rparr>)) s)\<lparr>console := c\<rparr>"
    using assms
    by (simp add: fetch_settled_def fetchNFCe_resume_def finally_block_def say_def
          res_text_def ok_def)
  have e: "body res = Rejected why \<longrightarrow>
          error (fetch_settled (Resolved res) s) = Some connection_message
          \<and> console (fetch_settled (Resolved res) s)
              = console s @ [ConsoleError ''Erro fetch:'' (LText why)]"
    using assms
    by (simp add: fetch_settled_def fetchNFCe_resume_def finally_block_def catch_block_def
          say_def res_text_def)
  from a[of s] b c d e show ?thesis by (intro conjI)
qed

theorem http_error_message_by_body_witness:
  "error (fetchNFCe ''https://example/nfce?x=1'' http_500 initial) = Some processing_message
   \<and> invoice (fetchNFCe ''https://example/nfce?x=1'' http_500 initial) = None"
proof -
  let ?res = "\<lparr>status = 500, body = Resolved ''Internal Server Error'',
     parsed = Rejected ''SyntaxError''\<rparr>"
  let ?s = "fetchNFCe_call ''https://example/nfce?x=1'' initial"
  have a: "\<not> ok ?res" by (simp add: ok_def)
  have b: "body ?res = Resolved ''Internal Server Error''" by simp
  from http_error_message_by_body[OF a, where s = initial
      and url = "''https://example/nfce?x=1''"]
  have i: "invoice (fetchNFCe ''https://example/nfce?x=1'' (Resolved ?res) initial) = None"
    by simp
  have "error (fetch_settled (Resolved ?res) ?s) = Some processing_message"
    using http_error_message_by_body[OF a, where bt = "''Internal Server Error''"
      and s = "fetchNFCe_call ''https://example/nfce?x=1'' initial"] b
    by simp
  with i show ?thesis
    by (simp add: http_500_def fetchNFCe_def)
qed

text \<open>
  Claim C6 as stated fails in two ways. A response with status 500 whose body cannot be
  read makes \<open>res.text()\<close> reject at line 68, inside the try block, and the catch block
  sets the connection-failure message. And when two fetches overlap, the first succeeds
  and the second answers 500, the second leaves the invoice of the first in place.
\<close>
theorem unreadable_error_body_reports_connection:
  "error (fetchNFCe ''https://example/nfce?x=1'' http_500_body_lost initial)
     = Some connection_message
   \<and> error (fetchNFCe ''https://example/nfce?x=1'' http_500_body_lost initial)
     \<noteq> Some processing_message
   \<and> exec overlap_then_500 initial \<noteq> None
   \<and> error (the (exec overlap_then_500 initial)) = Some processing_message
   \<and> invoice (the (exec overlap_then_500 initial)) = Some sample_invoice"
  by (simp add: overlap_then_500_def initial_def permission_resolved_def press_scan_def
        rerender_def handleBarcodeScanned_def fetchNFCe_call_def issue_request_def
        try_prologue_def say_def fetch_settled_def fetchNFCe_resume_def catch_block_def
        finally_block_def http_500_def http_500_body_lost_def http_200_def ok_def
        res_json_def res_text_def fetchNFCe_def processing_message_def
        connection_message_def)

lemma thrown_no_invoice:
  "unparsable r \<longrightarrow> \<not> succeeded r" "\<not> completed r \<longrightarrow> \<not> succeeded r"
  by (auto simp: unparsable_def completed_def succeeded_def res_json_def
        split: awaited.splits)

text \<open>
  Claim C7, amended. A fetch run from its start ends with the connection-failure message
  exactly when an exception reached the catch block: the exchange did not complete, or it
  completed with a success status and a body that is not the JSON of an invoice. Every
  transport failure yields the connection-failure message in whatever state the fetch
  resumes; a completed exchange with a non-success status yields the processing-failure
  message; a settlement issues no request, so nothing is retried.
\<close>
theorem connection_message_iff_thrown:
  "(error (fetchNFCe url r s) = Some connection_message
      \<longleftrightarrow> \<not> completed r \<or> unparsable r)
   \<and> (\<not> completed r \<longrightarrow> error (fetch_settled r s') = Some connection_message)
   \<and> (completed r \<and> \<not> succeeded r \<and> \<not> unparsable r
        \<longrightarrow> error (fetch_settled r s') = Some processing_message)
   \<and> sent (fetch_settled r s') = sent s'
   \<and> sent (fetchNFCe url r s) = sent s @ [the_request url]"
proof -
  have e0: "error ((fetchNFCe_call url s)\<lparr>inflight := n\<rparr>) = None" for n
    by (simp add: fetchNFCe_call_def issue_request_def try_prologue_def)
  have a: "error (fetchNFCe url r s) = Some connection_message
      \<longleftrightarrow> \<not> completed r \<or> unparsable r"
    using thrown_no_invoice[of r] messages_distinct
    by (cases "succeeded r")
       (simp_all add: fetchNFCe_def fetch_settled_def error_fetchNFCe_resume e0)
  have b: "\<not> completed r \<longrightarrow> error (fetch_settled r s') = Some connection_message"
    using thrown_no_invoice[of r]
    by (simp add: fetch_settled_def error_fetchNFCe_resume)
  have c: "completed r \<and> \<not> succeeded r \<and> \<not> unparsable r
        \<longrightarrow> error (fetch_settled r s') = Some processing_message"
    by (simp add: fetch_settled_def error_fetchNFCe_resume)
  have d: "sent (fetch_settled r s') = sent s'"
    by (simp add: fetch_settled_def frame_fetchNFCe_resume)
  have e: "sent (fetchNFCe url r s) = sent s @ [the_request url]"
    by (simp add: fetchNFCe_def fetch_settled_def frame_fetchNFCe_resume fetchNFCe_call_def
          issue_request_def try_prologue_def the_request_def)
  from a b c d e show ?thesis by simp
qed

theorem connection_message_iff_thrown_witness:
  "\<not> completed unreachable
   \<and> error (fetchNFCe ''https://example/nfce?x=1'' unreachable initial) = Some connection_message
   \<and> sent (fetchNFCe ''https://example/nfce?x=1'' unreachable initial)
       = [the_request ''https://example/nfce?x=1'']"
proof -
  have a: "\<not> completed unreachable" by (simp add: completed_def unreachable_def)
  from connection_message_iff_thrown[of "''https://example/nfce?x=1''" unreachable initial] a show ?thesis
    by (simp add: initial_def)
qed

text \<open>
  Claim C7 as stated fails when the exchange completes with status 200 and a body that is
  not JSON: \<open>res.json()\<close> rejects inside the try block and the catch block reports a
  connection failure.
\<close>
theorem unparsable_success_reports_connection:
  "completed http_200_not_json
   \<and> error (fetchNFCe ''https://example/nfce?x=1'' http_200_not_json initial)
       = Some connection_message"
  by (simp add: completed_def http_200_not_json_def fetchNFCe_def fetch_settled_def
        fetchNFCe_resume_def catch_block_def finally_block_def say_def ok_def res_json_def
        fetchNFCe_call_def issue_request_def try_prologue_def initial_def)

text \<open>
  Claim C9. Each of the two buttons writes \<open>isScanning\<close> and nothing else: \<open>invoice\<close>,
  \<open>error\<close>, \<open>rawUrl\<close>, \<open>loading\<close> and \<open>hasPermission\<close> are as before, and so are
  the console, the requests and the scanner on screen, so a result or error on display
  stays.
\<close>
theorem buttons_change_only_isScanning:
  "isScanning (press_scan s) \<and> \<not> isScanning (press_cancel s)
   \<and> invoice (press_scan s) = invoice s \<and> invoice (press_cancel s) = invoice s
   \<and> error (press_scan s) = error s \<and> error (press_cancel s) = error s
   \<and> rawUrl (press_scan s) = rawUrl s \<and> rawUrl (press_cancel s) = rawUrl s
   \<and> loading (press_scan s) = loading s \<and> loading (press_cancel s) = loading s
   \<and> hasPermission (press_scan s) = hasPermission s
   \<and> hasPermission (press_cancel s) = hasPermission s
   \<and> console (press_scan s) = console s \<and> console (press_cancel s) = console s
   \<and> sent (press_scan s) = sent s \<and> sent (press_cancel s) = sent s
   \<and> inflight (press_scan s) = inflight s \<and> inflight (press_cancel s) = inflight s
   \<and> mounted (press_scan s) = mounted s \<and> mounted (press_cancel s) = mounted s"
  by (simp add: press_scan_def press_cancel_def)

theorem buttons_change_only_isScanning_witness:
  "isScanning (press_scan initial) \<and> \<not> isScanning (press_cancel initial)
   \<and> invoice (press_scan initial) = invoice initial
   \<and> error (press_cancel initial) = error initial"
  using buttons_change_only_isScanning [of initial]
  by (elim conjE) (intro conjI; assumption)

lemma exec_hasPermission:
  "exec es s = Some s' \<Longrightarrow> hasPermission s = Some b \<Longrightarrow> hasPermission s' = Some b"
proof (induction es arbitrary: s)
  case Nil
  then show ?case by simp
next
  case (Cons e es)
  from Cons.prems(1) have en: "enabled s e" and rest: "exec es (handle e s) = Some s'"
    by (auto split: if_splits)
  from en Cons.prems(2) have "hasPermission (handle e s) = Some b"
    by (cases e)
       (simp_all add: press_scan_def press_cancel_def handleBarcodeScanned_def
          fetchNFCe_call_def issue_request_def try_prologue_def say_def fetch_settled_def
          frame_fetchNFCe_resume rerender_def)
  with Cons.IH[OF rest] show ?case by simp
qed

text \<open>
  Claim C10. When the permission request resolves, \<open>hasPermission\<close> becomes true if
  the status is the string "granted" and false for every other status; in every run that
  follows it keeps that value, so it is granted if and only if the status was "granted",
  and it is never null again.
\<close>
theorem permission_granted_iff_status:
  assumes "exec es (permission_resolved st s) = Some s'"
  shows "hasPermission (permission_resolved st s) = Some (st = ''granted'')
    \<and> hasPermission s' = Some (st = ''granted'')
    \<and> (hasPermission s' = Some True \<longleftrightarrow> st = ''granted'')
    \<and> (hasPermission s' = Some False \<longleftrightarrow> st \<noteq> ''granted'')
    \<and> hasPermission s' \<noteq> None"
proof -
  have "hasPermission (permission_resolved st s) = Some (st = ''granted'')"
    by (simp add: permission_resolved_def)
  with exec_hasPermission[OF assms] show ?thesis by auto
qed

theorem permission_granted_iff_status_witness:
  "exec [] (permission_resolved ''undetermined'' initial)
     = Some (permission_resolved ''undetermined'' initial)
   \<and> hasPermission (permission_resolved ''undetermined'' initial) = Some False"
proof -
  have e: "exec [] (permission_resolved ''undetermined'' initial)
     = Some (permission_resolved ''undetermined'' initial)" by simp
  from permission_granted_iff_status[OF e] e show ?thesis by simp
qed

lemma sent_handle:
  "sent (handle e s) = (case e of BarcodeScanned d \<Rightarrow> sent s @ [the_request d] | _ \<Rightarrow> sent s)"
  by (cases e)
     (simp_all add: permission_resolved_def press_scan_def press_cancel_def rerender_def
        handleBarcodeScanned_def fetchNFCe_call_def issue_request_def try_prologue_def say_def
        fetch_settled_def frame_fetchNFCe_resume the_request_def)

lemma isScanning_handle:
  "isScanning (handle e s) =
     (case e of PressScan \<Rightarrow> True | PressCancel \<Rightarrow> False | BarcodeScanned d \<Rightarrow> False
      | _ \<Rightarrow> isScanning s)"
  by (cases e)
     (simp_all add: permission_resolved_def press_scan_def press_cancel_def rerender_def
        handleBarcodeScanned_def fetchNFCe_call_def issue_request_def try_prologue_def say_def
        fetch_settled_def frame_fetchNFCe_resume)

lemma mounted_handle:
  "mounted (handle e s) =
     (case e of Rerender \<Rightarrow> hasPermission s = Some True \<and> isScanning s | _ \<Rightarrow> mounted s)"
  by (cases e)
     (simp_all add: permission_resolved_def press_scan_def press_cancel_def rerender_def
        handleBarcodeScanned_def fetchNFCe_call_def issue_request_def try_prologue_def say_def
        fetch_settled_def frame_fetchNFCe_resume)

lemma exec_sends_per_decode:
  "exec es s = Some s' \<Longrightarrow> sent s' = sent s @ map the_request (decoded es)"
proof (induction es arbitrary: s)
  case Nil
  then show ?case by simp
next
  case (Cons e es)
  from Cons.prems have rest: "exec es (handle e s) = Some s'"
    by (auto split: if_splits)
  from Cons.IH[OF rest] sent_handle[of e s] show ?case
    by (cases e) simp_all
qed

lemma exec_unmounted_sends_nothing:
  "exec es s = Some s' \<Longrightarrow> PressScan \<notin> set es \<Longrightarrow> \<not> isScanning s \<Longrightarrow> \<not> mounted s
     \<Longrightarrow> sent s' = sent s"
proof (induction es arbitrary: s)
  case Nil
  then show ?case by simp
next
  case (Cons e es)
  from Cons.prems(1) have en: "enabled s e" and rest: "exec es (handle e s) = Some s'"
    by (auto split: if_splits)
  from Cons.prems(2) have ne: "e \<noteq> PressScan" and nes: "PressScan \<notin> set es" by auto
  from ne Cons.prems(3) have a: "\<not> isScanning (handle e s)"
    by (simp add: isScanning_handle split: event.splits)
  from Cons.prems(3,4) have b: "\<not> mounted (handle e s)"
    by (simp add: mounted_handle split: event.splits)
  from en Cons.prems(4) have c: "sent (handle e s) = sent s"
    by (auto simp: sent_handle split: event.splits)
  from Cons.IH[OF rest nes a b] c show ?case by simp
qed

text \<open>
  Claim C4, amended. The decode handler, on every decode event it receives and whatever
  the text, stores the text as it is in \<open>rawUrl\<close>, leaves scanning, and issues exactly one
  request, whose \<open>url\<close> is that same text: the requests of a run are those of its decode
  events, one each, in order. The handler tests nothing, so a scan session is not limited
  to one fetch by the handler; but once a render has been committed after a decode, the
  scanner is off the screen, and no further request is issued until the user presses
  "Escanear Nota" again.
\<close>
theorem each_decode_starts_one_fetch:
  "rawUrl (handleBarcodeScanned d s) = Some d
   \<and> \<not> isScanning (handleBarcodeScanned d s)
   \<and> sent (handleBarcodeScanned d s) = sent s @ [the_request d]
   \<and> req_url (last (sent (handleBarcodeScanned d s))) = d
   \<and> inflight (handleBarcodeScanned d s) = Suc (inflight s)
   \<and> (exec es s0 = Some s1 \<longrightarrow> sent s1 = sent s0 @ map the_request (decoded es))
   \<and> (exec fs (rerender (handleBarcodeScanned d s)) = Some s' \<and> PressScan \<notin> set fs
        \<longrightarrow> sent s' = sent s @ [the_request d])"
proof -
  have a: "rawUrl (handleBarcodeScanned d s) = Some d"
    "\<not> isScanning (handleBarcodeScanned d s)"
    "sent (handleBarcodeScanned d s) = sent s @ [the_request d]"
    "inflight (handleBarcodeScanned d s) = Suc (inflight s)"
    by (simp_all add: handleBarcodeScanned_def fetchNFCe_call_def issue_request_def
          try_prologue_def say_def the_request_def)
  have r: "\<not> isScanning (rerender (handleBarcodeScanned d s))"
    "\<not> mounted (rerender (handleBarcodeScanned d s))"
    "sent (rerender (handleBarcodeScanned d s)) = sent s @ [the_request d]"
    using a by (simp_all add: rerender_def)
  have b: "exec es s0 = Some s1 \<longrightarrow> sent s1 = sent s0 @ map the_request (decoded es)"
    using exec_sends_per_decode[of es s0 s1] by simp
  have c: "exec fs (rerender (handleBarcodeScanned d s)) = Some s' \<and> PressScan \<notin> set fs
        \<longrightarrow> sent s' = sent s @ [the_request d]"
    using exec_unmounted_sends_nothing[of fs "rerender (handleBarcodeScanned d s)" s'] r
    by auto
  from a b c show ?thesis by (simp add: the_request_def)
qed

theorem each_decode_starts_one_fetch_witness:
  "PressScan \<notin> set [FetchSettled http_200, Rerender]
   \<and> exec [FetchSettled http_200, Rerender]
        (rerender (handleBarcodeScanned ''https://example/nfce?x=1''
           (rerender (press_scan (permission_resolved ''granted'' initial))))) \<noteq> None
   \<and> sent (the (exec [FetchSettled http_200, Rerender]
        (rerender (handleBarcodeScanned ''https://example/nfce?x=1''
           (rerender (press_scan (permission_resolved ''granted'' initial)))))))
     = [the_request ''https://example/nfce?x=1'']
   \<and> rawUrl (handleBarcodeScanned ''https://example/nfce?x=1''
        (rerender (press_scan (permission_resolved ''granted'' initial))))
     = Some ''https://example/nfce?x=1''
   \<and> \<not> isScanning (handleBarcodeScanned ''https://example/nfce?x=1''
        (rerender (press_scan (permission_resolved ''granted'' initial))))"
proof -
  let ?s = "rerender (press_scan (permission_resolved ''granted'' initial))"
  let ?u = "''https://example/nfce?x=1''"
  let ?t = "rerender (handleBarcodeScanned ?u ?s)"
  have e: "exec [FetchSettled http_200, Rerender] ?t
     = Some (rerender (fetch_settled http_200 ?t))"
    by (simp add: handleBarcodeScanned_def fetchNFCe_call_def issue_request_def rerender_def)
  have g: "sent ?s = []"
    by (simp add: press_scan_def permission_resolved_def initial_def rerender_def)
  from each_decode_starts_one_fetch[of ?u ?s _ _ _ "[FetchSettled http_200, Rerender]"
        "rerender (fetch_settled http_200 ?t)"] e g
  show ?thesis by simp
qed

text \<open>
  Claim C4 as stated fails when the scanner reports the code a second time before the
  render that takes it off the screen: the handler runs twice and one scan session, with
  one press of "Escanear Nota", issues two requests.
\<close>
theorem double_decode_fetches_twice:
  "exec double_decode initial \<noteq> None
   \<and> count_list double_decode PressScan = 1
   \<and> sent (the (exec double_decode initial))
       = [the_request ''https://example/nfce?x=1'', the_request ''https://example/nfce?x=1'']
   \<and> inflight (the (exec double_decode initial)) = 2"
  by (simp add: double_decode_def initial_def permission_resolved_def press_scan_def
        rerender_def handleBarcodeScanned_def fetchNFCe_call_def issue_request_def
        try_prologue_def say_def the_request_def)

lemma error_wf_handle: "error_wf s \<Longrightarrow> error_wf (handle e s)"
  by (cases e)
     (auto simp: error_wf_def permission_resolved_def press_scan_def press_cancel_def
        handleBarcodeScanned_def fetchNFCe_call_def issue_request_def try_prologue_def say_def
        fetch_settled_def error_fetchNFCe_resume rerender_def)

lemma error_wf_exec: "exec es s = Some s' \<Longrightarrow> error_wf s \<Longrightarrow> error_wf s'"
proof (induction es arbitrary: s)
  case Nil
  then show ?case by simp
next
  case (Cons e es)
  from Cons.prems(1) have rest: "exec es (handle e s) = Some s'"
    by (auto split: if_splits)
  from Cons.IH[OF rest error_wf_handle[OF Cons.prems(2)]] show ?case .
qed

lemma error_wf_truthy: "error_wf s \<Longrightarrow> truthy (error s) = (error s \<noteq> None)"
  using messages_nonempty by (auto simp: error_wf_def truthy_def)

lemma mode_of_App:
  "mode_of (App n s) =
     (if hasPermission s = None then PendingMode
      else if hasPermission s = Some False then DeniedMode
      else MainMode
        (if loading s then [LoadingIndicator]
         else if truthy (error s) then [ErrorBanner]
         else if invoice s \<noteq> None then [InvoiceCard]
         else if \<not> isScanning s then [EmptyPlaceholder]
         else []))"
  by (cases "invoice s") (auto simp: App_def status_contents_def truthy_def split: option.splits)

text \<open>
  Claim C1. The view is a function of the state alone (of its six cells, and of nothing
  else the screen keeps), and on every state, whatever combination of values its cells
  hold, with \<open>error\<close> null or one of the two messages the code stores, it is the one
  the specification's priority order selects: the permission-pending view while
  \<open>hasPermission\<close> is null; the permission-denied view when it is false, whatever the
  other fields hold; otherwise the main screen, whose status contents are the loading
  indicator if \<open>loading\<close>, else the error banner if \<open>error\<close> is set, else the invoice
  card if \<open>invoice\<close> is set, else the empty-state placeholder if not scanning, else
  nothing.
\<close>
theorem render_follows_priority_order:
  assumes "error_wf s"
  shows "mode_of (App n s) = spec_view_mode s
    \<and> App n (s\<lparr>console := c, sent := q, inflight := k, mounted := b\<rparr>) = App n s"
  using error_wf_truthy[OF assms]
  by (simp add: mode_of_App spec_view_mode_def view_ignores_effects)

theorem render_follows_priority_order_witness:
  "error_wf busy_state
   \<and> mode_of (App int_num2str busy_state) = MainMode [LoadingIndicator]
   \<and> mode_of (App int_num2str (busy_state\<lparr>loading := False\<rparr>)) = MainMode [ErrorBanner]
   \<and> mode_of (App int_num2str (busy_state\<lparr>hasPermission := Some False\<rparr>)) = DeniedMode"
proof -
  have w: "error_wf busy_state" "error_wf (busy_state\<lparr>loading := False\<rparr>)"
    "error_wf (busy_state\<lparr>hasPermission := Some False\<rparr>)"
    by (simp_all add: error_wf_def busy_state_def)
  have m: "spec_view_mode busy_state = MainMode [LoadingIndicator]"
    "spec_view_mode (busy_state\<lparr>loading := False\<rparr>) = MainMode [ErrorBanner]"
    "spec_view_mode (busy_state\<lparr>hasPermission := Some False\<rparr>) = DeniedMode"
    by (simp_all add: spec_view_mode_def busy_state_def)
  from render_follows_priority_order[OF w(1), of int_num2str]
    render_follows_priority_order[OF w(2), of int_num2str]
    render_follows_priority_order[OF w(3), of int_num2str] w(1) m
  show ?thesis by simp
qed

text \<open>
  Claim C5, amended. On every reachable state with the camera granted the main screen holds
  at most one of the four status contents; it holds none exactly when the screen is
  scanning with no fetch in flight, no error and no invoice, and exactly one otherwise.
\<close>
theorem at_most_one_status_content:
  assumes "exec es initial = Some s" and "hasPermission s = Some True"
  shows "\<exists>cs. mode_of (App n s) = MainMode cs \<and> length cs \<le> 1
    \<and> (cs = [] \<longleftrightarrow> isScanning s \<and> \<not> loading s \<and> error s = None \<and> invoice s = None)
    \<and> (length cs = 1 \<longleftrightarrow> \<not> isScanning s \<or> loading s \<or> error s \<noteq> None \<or> invoice s \<noteq> None)"
proof -
  have "error_wf initial" by (simp add: error_wf_def initial_def)
  from error_wf_truthy[OF error_wf_exec[OF assms(1) this]] assms(2) show ?thesis
    by (simp add: mode_of_App)
qed

theorem at_most_one_status_content_witness:
  "exec [PermissionResolved ''granted''] initial \<noteq> None
   \<and> hasPermission (the (exec [PermissionResolved ''granted''] initial)) = Some True
   \<and> mode_of (App int_num2str (the (exec [PermissionResolved ''granted''] initial)))
       = MainMode [EmptyPlaceholder]"
proof -
  let ?s = "permission_resolved ''granted'' initial"
  have e: "exec [PermissionResolved ''granted''] initial = Some ?s"
    by (simp add: initial_def)
  have p: "hasPermission ?s = Some True" by (simp add: permission_resolved_def)
  have f: "\<not> isScanning ?s" "\<not> loading ?s" "error ?s = None" "invoice ?s = None"
    by (simp_all add: permission_resolved_def initial_def)
  from at_most_one_status_content[OF e p, of int_num2str] obtain cs where
    "mode_of (App int_num2str ?s) = MainMode cs" "length cs = 1" using f by auto
  moreover have "mode_of (App int_num2str ?s) = MainMode [EmptyPlaceholder]"
    using f p by (simp add: mode_of_App truthy_def)
  ultimately show ?thesis using e p by simp
qed

text \<open>
  Claim C5 as stated fails on the state reached by granting the camera and pressing
  "Escanear Nota": the main screen holds none of the four status contents.
\<close>
theorem scanning_alone_shows_no_status:
  "exec [PermissionResolved ''granted'', PressScan] initial \<noteq> None
   \<and> hasPermission (the (exec [PermissionResolved ''granted'', PressScan] initial)) = Some True
   \<and> mode_of (App int_num2str (the (exec [PermissionResolved ''granted'', PressScan] initial)))
       = MainMode []"
  by (simp add: initial_def permission_resolved_def press_scan_def App_def
        status_contents_def truthy_def)

lemma is_digit_digit_char: "d < 10 \<Longrightarrow> is_digit (digit_char d)"
proof -
  assume "d < 10"
  then have "d < length ''0123456789''" by simp
  from nth_mem[OF this] show ?thesis by (simp only: is_digit_def digit_char_def)
qed

lemma digits_decimal_digits: "list_all is_digit (decimal_digits n)"
proof (induction n rule: decimal_digits.induct)
  case (1 n)
  show ?case
  proof (cases "n < 10")
    case True
    then show ?thesis
      by (subst decimal_digits.simps) (simp add: is_digit_digit_char)
  next
    case False
    with "1" show ?thesis
      by (subst decimal_digits.simps) (simp add: is_digit_digit_char)
  qed
qed

lemma decimal_digits_nonempty: "decimal_digits n \<noteq> []"
  by (subst decimal_digits.simps) simp

lemma decimal_digits_small: "n < 10 \<Longrightarrow> decimal_digits n = [digit_char n]"
  by (subst decimal_digits.simps) simp

lemma decimal_digits_step:
  "10 \<le> n \<Longrightarrow> decimal_digits n = decimal_digits (n div 10) @ [digit_char (n mod 10)]"
  by (subst decimal_digits.simps) simp

lemma decimal_digits_hundreds:
  assumes "100 \<le> n"
  shows "decimal_digits n
    = decimal_digits (n div 100) @ [digit_char (n div 10 mod 10), digit_char (n mod 10)]"
proof -
  from assms have a: "10 \<le> n" and b: "10 \<le> n div 10" by auto
  have c: "n div 10 div 10 = n div 100" by (simp add: div_mult2_eq)
  from decimal_digits_step[OF a] decimal_digits_step[OF b] c show ?thesis by simp
qed

lemma digit_char_0: "digit_char 0 = CHR ''0''"
  by (simp add: digit_char_def)

lemma place_point_decimal_digits:
  "place_point (decimal_digits n)
     = decimal_digits (n div 100) @ ''.'' @ [digit_char (n div 10 mod 10), digit_char (n mod 10)]"
proof -
  consider "n < 10" | "10 \<le> n" "n < 100" | "100 \<le> n" by linarith
  then show ?thesis
  proof cases
    case 1
    then show ?thesis
      by (simp add: place_point_def decimal_digits_small digit_char_0 numeral_3_eq_3)
  next
    case 2
    then have "n div 10 < 10" by simp
    with 2 show ?thesis
      by (simp add: place_point_def decimal_digits_step decimal_digits_small digit_char_0)
  next
    case 3
    have "length (decimal_digits (n div 100)) \<noteq> 0" using decimal_digits_nonempty by simp
    with 3 show ?thesis
      by (simp add: place_point_def decimal_digits_hundreds)
  qed
qed

lemma toFixed2_Fin:
  "\<bar>x\<bar> < 10 ^ 21 \<Longrightarrow>
   toFixed2 n (Fin x) = (if x < 0 then ''-'' else []) @ place_point (decimal_digits (cents x))"
  by (auto simp: toFixed2_def Let_def place_point_def cents_def abs_if)

lemma is_digit_not_minus: "is_digit c \<Longrightarrow> c \<noteq> CHR ''-''"
  by (auto simp: is_digit_def)

lemma two_decimal_digits_shape:
  assumes "a \<noteq> []" "list_all is_digit a" "is_digit d1" "is_digit d2"
  shows "two_decimal_digits (a @ ''.'' @ [d1, d2])"
    and "two_decimal_digits (''-'' @ a @ ''.'' @ [d1, d2])"
proof -
  from assms(1) obtain c cs where a: "a = c # cs" by (cases a) auto
  with assms(2) have "c \<noteq> CHR ''-''" by (simp add: is_digit_not_minus)
  with a assms show "two_decimal_digits (a @ ''.'' @ [d1, d2])"
    by (simp add: two_decimal_digits_def)
  from a assms show "two_decimal_digits (''-'' @ a @ ''.'' @ [d1, d2])"
    by (simp add: two_decimal_digits_def)
qed

text \<open>
  Claim C8, amended. A finite amount of magnitude below \<open>10^21\<close> is printed by
  \<open>toFixed(2)\<close> with exactly two decimal digits: an optional minus sign, the digits of
  the whole part, a point and two digits, which together are the nearest number of
  hundredths (so \<open>12.5\<close> gives "12.50"). The grand total, each line total and each unit
  value are rendered as the prefix "R$ " followed by that text, one row per item in the
  order received.
\<close>
theorem toFixed2_two_decimals:
  assumes "\<bar>x\<bar> < 10 ^ 21"
  shows "toFixed2 n (Fin x)
      = (if x < 0 then ''-'' else []) @ decimal_digits (cents x div 100) @ ''.''
          @ [digit_char (cents x div 10 mod 10), digit_char (cents x mod 10)]
    \<and> two_decimal_digits (toFixed2 n (Fin x))
    \<and> \<bar>rat_of_nat (cents x) / 100 - \<bar>x\<bar>\<bar> \<le> 1 / 200
    \<and> (total nf = Fin x \<longrightarrow>
          card_total (render_invoice n nf raw) = ''R$ '' @ toFixed2 n (Fin x))
    \<and> card_items (render_invoice n nf raw) = map (render_item n) (itens nf)
    \<and> (valor_total it = Fin x \<longrightarrow>
          row_total (render_item n it) = ''R$ '' @ toFixed2 n (Fin x))
    \<and> (valor_unitario it = Fin x \<longrightarrow>
          row_subtext (render_item n it)
            = ''Qtd: '' @ Number_toString n (quantidade it) @ '' ''
                @ [CHR 0xE2, CHR 0x80, CHR 0xA2] @ '' Vl. unit: '' @ ''R$ ''
                @ toFixed2 n (Fin x))"
proof -
  let ?a = "decimal_digits (cents x div 100)"
  let ?d1 = "digit_char (cents x div 10 mod 10)"
  let ?d2 = "digit_char (cents x mod 10)"
  have eq: "toFixed2 n (Fin x) = (if x < 0 then ''-'' else []) @ ?a @ ''.'' @ [?d1, ?d2]"
    by (simp only: toFixed2_Fin[OF assms] place_point_decimal_digits)
  have d: "is_digit ?d1" "is_digit ?d2" by (simp_all add: is_digit_digit_char)
  from two_decimal_digits_shape[OF decimal_digits_nonempty digits_decimal_digits d]
  have shape: "two_decimal_digits (toFixed2 n (Fin x))"
    by (simp add: eq)
  have "rat_of_nat (cents x) = of_int \<lfloor>\<bar>x\<bar> * 100 + 1 / 2\<rfloor>"
    by (simp add: cents_def)
  then have near: "\<bar>rat_of_nat (cents x) / 100 - \<bar>x\<bar>\<bar> \<le> 1 / 200"
    by linarith
  have r: "(total nf = Fin x \<longrightarrow>
          card_total (render_invoice n nf raw) = ''R$ '' @ toFixed2 n (Fin x))"
    "card_items (render_invoice n nf raw) = map (render_item n) (itens nf)"
    "(valor_total it = Fin x \<longrightarrow>
          row_total (render_item n it) = ''R$ '' @ toFixed2 n (Fin x))"
    "(valor_unitario it = Fin x \<longrightarrow>
          row_subtext (render_item n it)
            = ''Qtd: '' @ Number_toString n (quantidade it) @ '' ''
                @ [CHR 0xE2, CHR 0x80, CHR 0xA2] @ '' Vl. unit: '' @ ''R$ ''
                @ toFixed2 n (Fin x))"
    by (simp_all add: render_invoice_def render_item_def)
  from eq shape near r show ?thesis by (intro conjI)
qed

theorem toFixed2_two_decimals_witness:
  "\<bar>25 / 2 :: rat\<bar> < 10 ^ 21
   \<and> toFixed2 int_num2str (Fin (25 / 2)) = ''12.50''
   \<and> two_decimal_digits (toFixed2 int_num2str (Fin (25 / 2)))"
proof -
  have h: "\<bar>25 / 2 :: rat\<bar> < 10 ^ 21" by simp
  have c: "cents (25 / 2) = 1250" by code_simp
  have d: "decimal_digits 12 = ''12''" by code_simp
  have e: "digit_char 5 = CHR ''5''" "digit_char 0 = CHR ''0''" by code_simp+
  from toFixed2_two_decimals[OF h, of int_num2str] have
    "toFixed2 int_num2str (Fin (25 / 2))
      = (if (25 / 2 :: rat) < 0 then ''-'' else []) @ decimal_digits (cents (25 / 2) div 100)
          @ ''.'' @ [digit_char (cents (25 / 2) div 10 mod 10), digit_char (cents (25 / 2) mod 10)]"
    and t: "two_decimal_digits (toFixed2 int_num2str (Fin (25 / 2)))"
    by blast+
  then have "toFixed2 int_num2str (Fin (25 / 2)) = ''12.50''"
    by (simp add: c d e)
  with h t show ?thesis by simp
qed

text \<open>
  Claim C8 as stated fails on a total that is not finite (the JSON number \<open>1e999\<close> is
  read as \<open>Infinity\<close>): \<open>toFixed(2)\<close> prints it as "Infinity", with no decimal digits.
\<close>
theorem infinite_total_not_two_decimals:
  "toFixed2 int_num2str PosInf = ''Infinity''
   \<and> \<not> two_decimal_digits (toFixed2 int_num2str PosInf)
   \<and> card_total (render_invoice int_num2str (sample_invoice\<lparr>total := PosInf\<rparr>) None)
       = ''R$ Infinity''"
  by (simp add: toFixed2_def Number_toString_def two_decimal_digits_def render_invoice_def
        is_digit_def)

end
